theory Spec2Isabelle
  imports Complex_Main "HOL-Library.Sublist" "HOL-Library.Log_Nat"
begin

section \<open>JavaScript values and string operations used by app.js\<close>

text \<open>
  Values that app.js treats as opaque JSON (upstream error bodies, the accounts it
  relays) are modelled by a datatype of JavaScript values; app.js only tests them for
  truthiness, reads properties of them and passes them on. The numbers app.js computes
  with are modelled separately, as IEEE doubles (see \<open>jsnum\<close> below).
\<close>

datatype jsvalue =
    JUndefined
  | JNull
  | JBool bool
  | JNum rat
  | JStr string
  | JArr "jsvalue list"
  | JObj "(string \<times> jsvalue) list"

text \<open>ToBoolean: what \<open>!v\<close> and \<open>v || w\<close> test.\<close>

fun truthy :: "jsvalue \<Rightarrow> bool" where
  "truthy JUndefined = False"
| "truthy JNull = False"
| "truthy (JBool b) = b"
| "truthy (JNum n) = (n \<noteq> 0)"
| "truthy (JStr s) = (s \<noteq> [])"
| "truthy (JArr xs) = True"
| "truthy (JObj kvs) = True"

text \<open>\<open>a || b\<close> on values.\<close>

definition js_or :: "jsvalue \<Rightarrow> jsvalue \<Rightarrow> jsvalue" where
  "js_or a b = (if truthy a then a else b)"

text \<open>
  \<open>v?.k\<close> for a key \<open>k\<close> that no prototype defines (app.js reads \<open>error\<close> and
  \<open>message\<close> this way): undefined on undefined and null, the own property of an object
  (the last one when the JSON text repeats the key), undefined on every other value.
\<close>

fun opt_chain :: "jsvalue \<Rightarrow> string \<Rightarrow> jsvalue" where
  "opt_chain (JObj kvs) k = (case map_of (rev kvs) k of None \<Rightarrow> JUndefined | Some v \<Rightarrow> v)"
| "opt_chain v k = JUndefined"

text \<open>\<open>s.split(c)\<close> for a one-character separator: never empty, \<open>''''.split(c) = ['''']\<close>.\<close>

fun js_split :: "char \<Rightarrow> string \<Rightarrow> string list" where
  "js_split c [] = [[]]"
| "js_split c (x # xs) =
     (if x = c then [] # js_split c xs
      else (case js_split c xs of [] \<Rightarrow> [[x]] | y # ys \<Rightarrow> (x # y) # ys))"

text \<open>\<open>xs[i]\<close>: undefined out of range.\<close>

definition js_index :: "'a list \<Rightarrow> nat \<Rightarrow> 'a option" where
  "js_index xs i = (if i < length xs then Some (xs ! i) else None)"

text \<open>\<open>xs.pop()\<close> read for its value: the last element, undefined on an empty array.\<close>

definition js_pop :: "'a list \<Rightarrow> 'a option" where
  "js_pop xs = (if xs = [] then None else Some (last xs))"

text \<open>\<open>xs.join(sep)\<close> on an array of strings.\<close>

fun js_join :: "string \<Rightarrow> string list \<Rightarrow> string" where
  "js_join sep [] = []"
| "js_join sep [x] = x"
| "js_join sep (x # y # ys) = x @ sep @ js_join sep (y # ys)"

text \<open>A string or undefined inside a template literal \<open>`...${v}...`\<close>.\<close>

definition template :: "string option \<Rightarrow> string" where
  "template v = (case v of None \<Rightarrow> ''undefined'' | Some s \<Rightarrow> s)"

text \<open>\<open>s || d\<close> on an optional string: \<open>d\<close> when \<open>s\<close> is undefined or empty.\<close>

definition str_or :: "string option \<Rightarrow> string \<Rightarrow> string" where
  "str_or s d = (case s of None \<Rightarrow> d | Some v \<Rightarrow> if v = [] then d else v)"

subsection \<open>Number.prototype.toFixed\<close>

text \<open>The decimal digits of a natural number, \<open>''0''\<close> for 0.\<close>

fun digits :: "nat \<Rightarrow> string" where
  "digits n = (if n < 10 then [''0123456789'' ! n]
               else digits (n div 10) @ [''0123456789'' ! (n mod 10)])"

declare digits.simps [simp del]

text \<open>
  \<open>x.toFixed(f)\<close> as ECMAScript defines it, on the exact value of \<open>x\<close>: the sign, then
  for \<open>|x| < 10^21\<close> the integer \<open>n\<close> nearest to \<open>|x| * 10^f\<close> (the larger one on a
  tie), its digits padded with zeros to \<open>f + 1\<close> places, and a point before the last
  \<open>f\<close> digits. For \<open>|x| \<ge> 10^21\<close> the result is the number's ordinary string form,
  taken as the parameter \<open>numberToString\<close>. The result is a string in every case.
\<close>

definition toFixed :: "(rat \<Rightarrow> string) \<Rightarrow> nat \<Rightarrow> rat \<Rightarrow> string" where
  "toFixed numberToString f x =
     (let s = (if x < 0 then ''-'' else '''');
          a = (if x < 0 then - x else x)
      in if a \<ge> 10 ^ 21 then s @ numberToString a
         else
           let n = nat \<lfloor>a * 10 ^ f + 1 / 2\<rfloor>;
               m = digits n;
               m' = (if f \<noteq> 0 \<and> length m \<le> f then replicate (f + 1 - length m) (CHR ''0'') @ m else m);
               k = length m'
           in if f \<noteq> 0 then s @ take (k - f) m' @ ''.'' @ drop (k - f) m' else s @ m')"

text \<open>
  The number that a string of digits denotes, and the number that a string of digits
  with a decimal point denotes. They are used to say what the result of \<open>toFixed\<close>
  reads as.
\<close>

definition digit_value :: "char \<Rightarrow> nat" where
  "digit_value c = of_char c - 48"

definition decimal_value :: "string \<Rightarrow> nat" where
  "decimal_value s = foldl (\<lambda>a c. 10 * a + digit_value c) 0 s"

definition fixed_point_value :: "string \<Rightarrow> rat" where
  "fixed_point_value s =
     (let a = takeWhile (\<lambda>c. c \<noteq> CHR ''.'') s;
          b = tl (dropWhile (\<lambda>c. c \<noteq> CHR ''.'') s)
      in of_nat (decimal_value a) + of_nat (decimal_value b) / 10 ^ length b)"

section \<open>Numbers\<close>

text \<open>
  A JavaScript number is an IEEE 754 double: a finite value, modelled by the rational it
  denotes, an infinity, or NaN. The sign of a zero is not kept; nothing that app.js
  computes tells \<open>-0\<close> from \<open>0\<close>. A JSON literal arrives as the double nearest to it
  (\<open>round_double\<close> of its value).
\<close>

datatype jsnum = Finite rat | PosInfinity | NegInfinity | NaN

definition pow2 :: "int \<Rightarrow> rat" where
  "pow2 k = (if 0 \<le> k then 2 ^ nat k else 1 / 2 ^ nat (- k))"

text \<open>For \<open>x > 0\<close>, the integer \<open>e\<close> with \<open>2^e \<le> x < 2^(e+1)\<close>.\<close>

definition floor_log2 :: "rat \<Rightarrow> int" where
  "floor_log2 x =
     (case quotient_of x of
        (p, q) \<Rightarrow> let d = bitlen p - bitlen q in if pow2 d \<le> x then d else d - 1)"

text \<open>The nearest integer, the even one on a tie.\<close>

definition round_half_even :: "rat \<Rightarrow> int" where
  "round_half_even y =
     (let f = \<lfloor>y\<rfloor>; d = y - of_int f
      in if d < 1 / 2 then f else if 1 / 2 < d then f + 1 else if even f then f else f + 1)"

text \<open>
  Rounding of an exact result to a double, round-to-nearest with ties to even: 53
  significant bits, a smallest exponent of \<open>-1022\<close> (below it the spacing stays
  \<open>2^-1074\<close>), and an infinity when the rounded magnitude reaches \<open>2^1024\<close>.
\<close>

definition round_double :: "rat \<Rightarrow> jsnum" where
  "round_double x =
     (if x = 0 then Finite 0
      else
        let e = floor_log2 \<bar>x\<bar>;
            q = max e (- 1022) - 52;
            m = round_half_even (x / pow2 q);
            r = of_int m * pow2 q
        in if 2 ^ 1024 \<le> \<bar>r\<bar> then (if 0 < x then PosInfinity else NegInfinity)
           else Finite r)"

text \<open>\<open>a + b\<close> on numbers.\<close>

fun js_add :: "jsnum \<Rightarrow> jsnum \<Rightarrow> jsnum" where
  "js_add (Finite a) (Finite b) = round_double (a + b)"
| "js_add NaN b = NaN"
| "js_add a NaN = NaN"
| "js_add PosInfinity NegInfinity = NaN"
| "js_add NegInfinity PosInfinity = NaN"
| "js_add PosInfinity b = PosInfinity"
| "js_add NegInfinity b = NegInfinity"
| "js_add a PosInfinity = PosInfinity"
| "js_add a NegInfinity = NegInfinity"

text \<open>\<open>a / n\<close> for the length \<open>n\<close> of an array.\<close>

fun js_div :: "jsnum \<Rightarrow> nat \<Rightarrow> jsnum" where
  "js_div (Finite a) n =
     (if n = 0 then (if a = 0 then NaN else if 0 < a then PosInfinity else NegInfinity)
      else round_double (a / of_nat n))"
| "js_div PosInfinity n = PosInfinity"
| "js_div NegInfinity n = NegInfinity"
| "js_div NaN n = NaN"

text \<open>\<open>x || 0\<close> on an optional number: 0 when the field is absent, 0 or NaN.\<close>

fun or_zero :: "jsnum option \<Rightarrow> jsnum" where
  "or_zero None = Finite 0"
| "or_zero (Some NaN) = Finite 0"
| "or_zero (Some (Finite x)) = (if x = 0 then Finite 0 else Finite x)"
| "or_zero (Some v) = v"

text \<open>\<open>v.toFixed(f)\<close> on a number: a number that is not finite gives its name.\<close>

fun number_toFixed :: "(rat \<Rightarrow> string) \<Rightarrow> nat \<Rightarrow> jsnum \<Rightarrow> string" where
  "number_toFixed numberToString f (Finite x) = toFixed numberToString f x"
| "number_toFixed numberToString f PosInfinity = ''Infinity''"
| "number_toFixed numberToString f NegInfinity = ''-Infinity''"
| "number_toFixed numberToString f NaN = ''NaN''"

section \<open>Data model\<close>

subsection \<open>The upstream API as axios shows it\<close>

text \<open>
  An upstream location, with the fields app.js reads. \<open>location.name\<close> is a string or
  is missing; app.js calls \<open>split\<close> on it without a guard. \<open>location.locationName\<close>
  and \<open>location.address\<close> are guarded by \<open>||\<close> and \<open>?.\<close>. The value of
  \<open>addressLines\<close> is absent (undefined or null), an array of strings, or something
  else, on which \<open>?.join\<close> is not a function.
\<close>

datatype lines_field = NoLines | Lines "string list" | NotLines

record Address =
  addressLines :: lines_field

record Location =
  location_name :: "string option"
  location_locationName :: "string option"
  location_address :: "Address option"

text \<open>
  The value of \<open>data.locations\<close>: missing (or any falsy value), an array of locations,
  or a truthy value that is not an array.
\<close>

datatype locations_field = NoLocations | LocationArray "Location list" | NotAnArray

text \<open>
  \<open>response.data\<close> of a resolved call is \<open>null\<close> (\<open>None\<close>) or a JSON object in which
  each field that app.js reads is present or absent. The review counters are numbers.
\<close>

record ResponseData =
  data_accounts :: jsvalue
  data_locations :: locations_field
  data_totalReviewCount :: "jsnum option"
  data_averageRating :: "jsnum option"

text \<open>
  An error as the catch blocks see it: \<open>error.response\<close> (present when the upstream
  answered with a status outside 2xx, absent on a transport failure and on an error
  thrown by app.js itself) and \<open>error.message\<close>.
\<close>

record ErrorResponse =
  status :: nat
  data :: jsvalue

record AxiosError =
  response :: "ErrorResponse option"
  message :: string

text \<open>A TypeError thrown while app.js reads a value, with the message of V8.\<close>

definition TypeError :: "string \<Rightarrow> AxiosError" where
  "TypeError m = \<lparr>response = None, message = m\<rparr>"

datatype Outcome = Rejected AxiosError | Resolved "ResponseData option"

text \<open>The arguments of \<open>axios.get(url, {headers, params})\<close>.\<close>

record Request =
  url :: string
  headers :: "(string \<times> string) list"
  params :: "(string \<times> nat) list"

text \<open>
  The upstream is any function from the number of calls made before and the request to
  an outcome. \<open>axios_get\<close> appends the request to the log of calls made.
\<close>

type_synonym Upstream = "nat \<Rightarrow> Request \<Rightarrow> Outcome"

definition axios_get :: "Upstream \<Rightarrow> Request \<Rightarrow> Request list \<Rightarrow> Outcome \<times> Request list" where
  "axios_get upstream rq calls = (upstream (length calls) rq, calls @ [rq])"

subsection \<open>Requests and responses of the service\<close>

record Req =
  headers_authorization :: "string option"
  params_accountId :: string
  params_locationId :: string
  accessToken :: "string option"

record Stats =
  stats_totalReviewCount :: jsnum
  stats_averageRating :: jsnum

record LocationStats =
  locationId :: "string option"
  locationName :: string
  address :: string
  totalReviewCount :: jsnum
  averageRating :: jsnum
  error :: "jsvalue option"

record GlobalStats =
  totalLocations :: nat
  totalReviews :: jsnum
  averageRatingAcrossAllLocations :: jsvalue

text \<open>The JSON bodies that app.js sends, one constructor per object shape.\<close>

datatype Body =
    AuthErrorBody string string
      \<comment> \<open>\<open>{error, message}\<close>\<close>
  | AccountsBody bool jsvalue
      \<comment> \<open>\<open>{success, accounts}\<close>\<close>
  | LocationsBody bool locations_field
      \<comment> \<open>\<open>{success, locations}\<close>\<close>
  | ReviewsStatsBody bool string Stats
      \<comment> \<open>\<open>{success, locationId, stats}\<close>\<close>
  | AllReviewsStatsBody bool string GlobalStats "LocationStats list"
      \<comment> \<open>\<open>{success, accountId, globalStats, locationStats}\<close>\<close>
  | FailureBody bool jsvalue
      \<comment> \<open>\<open>{success, error}\<close>\<close>

record Response =
  statusCode :: nat
  body :: Body

section \<open>app.js\<close>

definition GMB_API_BASE_URL :: string where
  "GMB_API_BASE_URL = ''https://mybusiness.googleapis.com/v4''"

subsection \<open>validateToken\<close>

text \<open>
  The middleware either answers 401 (\<open>Inl\<close>) or stores the token on the request and
  calls \<open>next()\<close> (\<open>Inr\<close>).
\<close>

definition validateToken :: "Req \<Rightarrow> Response + Req" where
  "validateToken req =
     (case headers_authorization req of
        None \<Rightarrow>
          Inl \<lparr>statusCode = 401,
               body = AuthErrorBody ''Token d'authentification manquant ou invalide''
                        ''Veuillez fournir un token Bearer dans le header Authorization''\<rparr>
      | Some authHeader \<Rightarrow>
          if authHeader = [] \<or> \<not> prefix ''Bearer '' authHeader then
            Inl \<lparr>statusCode = 401,
                 body = AuthErrorBody ''Token d'authentification manquant ou invalide''
                          ''Veuillez fournir un token Bearer dans le header Authorization''\<rparr>
          else Inr (req\<lparr>accessToken := js_index (js_split (CHR '' '') authHeader) 1\<rparr>))"

text \<open>The headers every upstream call carries.\<close>

definition auth_headers :: "Req \<Rightarrow> (string \<times> string) list" where
  "auth_headers req =
     [(''Authorization'', ''Bearer '' @ template (accessToken req)),
      (''Content-Type'', ''application/json'')]"

text \<open>
  The catch block of the four handlers:
  \<open>res.status(error.response?.status || 500).json({success: false,
  error: error.response?.data || error.message})\<close>.
\<close>

definition catch_response :: "AxiosError \<Rightarrow> Response" where
  "catch_response e =
     \<lparr>statusCode = (case response e of
                      None \<Rightarrow> 500
                    | Some r \<Rightarrow> if status r = 0 then 500 else status r),
      body = FailureBody False
               (case response e of
                  None \<Rightarrow> JStr (message e)
                | Some r \<Rightarrow> js_or (data r) (JStr (message e)))\<rparr>"

subsection \<open>GET /api/accounts\<close>

definition accounts_request :: "Req \<Rightarrow> Request" where
  "accounts_request req =
     \<lparr>url = GMB_API_BASE_URL @ ''/accounts'', headers = auth_headers req, params = []\<rparr>"

definition accounts_handler :: "Upstream \<Rightarrow> Req \<Rightarrow> Request list \<Rightarrow> Response \<times> Request list" where
  "accounts_handler upstream req calls =
     (case axios_get upstream (accounts_request req) calls of
        (Rejected e, calls') \<Rightarrow> (catch_response e, calls')
      | (Resolved None, calls') \<Rightarrow>
          (catch_response (TypeError ''Cannot read properties of null (reading 'accounts')''),
           calls')
      | (Resolved (Some d), calls') \<Rightarrow>
          (\<lparr>statusCode = 200, body = AccountsBody True (js_or (data_accounts d) (JArr []))\<rparr>,
           calls'))"

subsection \<open>GET /api/accounts/:accountId/locations\<close>

text \<open>\<open>response.data.locations || []\<close>: an array is truthy even when empty.\<close>

definition locations_or_empty :: "ResponseData \<Rightarrow> locations_field" where
  "locations_or_empty d =
     (case data_locations d of NoLocations \<Rightarrow> LocationArray [] | v \<Rightarrow> v)"

definition locations_request :: "Req \<Rightarrow> Request" where
  "locations_request req =
     \<lparr>url = GMB_API_BASE_URL @ ''/accounts/'' @ params_accountId req @ ''/locations'',
      headers = auth_headers req, params = []\<rparr>"

definition locations_handler :: "Upstream \<Rightarrow> Req \<Rightarrow> Request list \<Rightarrow> Response \<times> Request list" where
  "locations_handler upstream req calls =
     (case axios_get upstream (locations_request req) calls of
        (Rejected e, calls') \<Rightarrow> (catch_response e, calls')
      | (Resolved None, calls') \<Rightarrow>
          (catch_response (TypeError ''Cannot read properties of null (reading 'locations')''),
           calls')
      | (Resolved (Some d), calls') \<Rightarrow>
          (\<lparr>statusCode = 200, body = LocationsBody True (locations_or_empty d)\<rparr>, calls'))"

subsection \<open>GET /api/accounts/:accountId/locations/:locationId/reviews-stats\<close>

definition reviews_request :: "Req \<Rightarrow> string \<Rightarrow> Request" where
  "reviews_request req locationPath =
     \<lparr>url = GMB_API_BASE_URL @ ''/'' @ locationPath @ ''/reviews'',
      headers = auth_headers req, params = [(''pageSize'', 1)]\<rparr>"

definition reviews_stats_handler :: "Upstream \<Rightarrow> Req \<Rightarrow> Request list \<Rightarrow> Response \<times> Request list" where
  "reviews_stats_handler upstream req calls =
     (let locationPath = ''accounts/'' @ params_accountId req @ ''/locations/'' @ params_locationId req
      in case axios_get upstream (reviews_request req locationPath) calls of
           (Rejected e, calls') \<Rightarrow> (catch_response e, calls')
         | (Resolved None, calls') \<Rightarrow>
             (catch_response
                (TypeError ''Cannot read properties of null (reading 'totalReviewCount')''),
              calls')
         | (Resolved (Some d), calls') \<Rightarrow>
             (\<lparr>statusCode = 200,
               body = ReviewsStatsBody True (params_locationId req)
                        \<lparr>stats_totalReviewCount = or_zero (data_totalReviewCount d),
                         stats_averageRating = or_zero (data_averageRating d)\<rparr>\<rparr>,
              calls'))"

subsection \<open>GET /api/accounts/:accountId/all-reviews-stats\<close>

text \<open>
  The message used when the upstream error carries none:
  ``Impossible de recuperer les avis'' with its two accented letters, each the code
  unit 0xE9.
\<close>

definition fallback_message :: string where
  "fallback_message = ''Impossible de r'' @ [CHR 0xE9] @ ''cup'' @ [CHR 0xE9] @ ''rer les avis''"

text \<open>\<open>location.name.split('/').pop()\<close>: a TypeError when the name is missing.\<close>

definition locationId_of :: "Location \<Rightarrow> AxiosError + string option" where
  "locationId_of location =
     (case location_name location of
        None \<Rightarrow> Inl (TypeError ''Cannot read properties of undefined (reading 'split')'')
      | Some n \<Rightarrow> Inr (js_pop (js_split (CHR ''/'') n)))"

text \<open>
  \<open>location.address?.addressLines?.join(', ')\<close>: undefined when the address or its
  lines are absent, a TypeError when the lines are not an array.
\<close>

definition address_joined :: "Location \<Rightarrow> AxiosError + string option" where
  "address_joined location =
     (case location_address location of
        None \<Rightarrow> Inr None
      | Some a \<Rightarrow>
          (case addressLines a of
             NoLines \<Rightarrow> Inr None
           | Lines ls \<Rightarrow> Inr (Some (js_join '', '' ls))
           | NotLines \<Rightarrow>
               Inl (TypeError ''location.address?.addressLines?.join is not a function'')))"

text \<open>
  The callback of \<open>locations.map\<close>. Its \<open>try\<close> block awaits the reviews call and builds
  the entry, field by field in the order of the object literal; a rejected call and a
  TypeError are thrown (\<open>Inl\<close>) into the \<open>catch\<close> block, which builds the entry with
  the error field and throws in its turn when reading the location fails again. The
  promise of the callback is fulfilled (\<open>Inr\<close>) with the entry returned or rejected
  (\<open>Inl\<close>) with what the \<open>catch\<close> block throws.
\<close>

definition stats_try ::
  "Upstream \<Rightarrow> Req \<Rightarrow> Location \<Rightarrow> Request list \<Rightarrow> (AxiosError + LocationStats) \<times> Request list" where
  "stats_try upstream req location calls =
     (case axios_get upstream (reviews_request req (template (location_name location))) calls of
        (Rejected e, calls') \<Rightarrow> (Inl e, calls')
      | (Resolved reviewsData, calls') \<Rightarrow>
          (case locationId_of location of
             Inl t \<Rightarrow> (Inl t, calls')
           | Inr lid \<Rightarrow>
               (case address_joined location of
                  Inl t \<Rightarrow> (Inl t, calls')
                | Inr joined \<Rightarrow>
                    (case reviewsData of
                       None \<Rightarrow>
                         (Inl (TypeError
                            ''Cannot read properties of null (reading 'totalReviewCount')''),
                          calls')
                     | Some d \<Rightarrow>
                         (Inr \<lparr>locationId = lid,
                               locationName = str_or (location_locationName location) ''N/A'',
                               address = str_or joined ''N/A'',
                               totalReviewCount = or_zero (data_totalReviewCount d),
                               averageRating = or_zero (data_averageRating d),
                               error = None\<rparr>,
                          calls')))))"

definition stats_catch :: "Location \<Rightarrow> AxiosError \<Rightarrow> AxiosError + LocationStats" where
  "stats_catch location e =
     (case locationId_of location of
        Inl t \<Rightarrow> Inl t
      | Inr lid \<Rightarrow>
          (case address_joined location of
             Inl t \<Rightarrow> Inl t
           | Inr joined \<Rightarrow>
               Inr \<lparr>locationId = lid,
                    locationName = str_or (location_locationName location) ''N/A'',
                    address = str_or joined ''N/A'',
                    totalReviewCount = Finite 0,
                    averageRating = Finite 0,
                    error = Some (js_or
                              (opt_chain
                                 (opt_chain
                                    (case response e of None \<Rightarrow> JUndefined | Some r \<Rightarrow> data r)
                                    ''error'')
                                 ''message'')
                              (JStr fallback_message))\<rparr>))"

definition stats_promise ::
  "Upstream \<Rightarrow> Req \<Rightarrow> Location \<Rightarrow> Request list \<Rightarrow> (AxiosError + LocationStats) \<times> Request list" where
  "stats_promise upstream req location calls =
     (case stats_try upstream req location calls of
        (Inl e, calls') \<Rightarrow> (stats_catch location e, calls')
      | (Inr s, calls') \<Rightarrow> (Inr s, calls'))"

text \<open>
  \<open>locations.map(async ...)\<close>: the callbacks start in the order of the list, each
  running up to its upstream call, so the calls are made in that order.
\<close>

fun statsPromises ::
  "Upstream \<Rightarrow> Req \<Rightarrow> Location list \<Rightarrow> Request list
     \<Rightarrow> (AxiosError + LocationStats) list \<times> Request list" where
  "statsPromises upstream req [] calls = ([], calls)"
| "statsPromises upstream req (location # locations) calls =
     (case stats_promise upstream req location calls of
        (p, calls') \<Rightarrow>
          (case statsPromises upstream req locations calls' of
             (ps, calls'') \<Rightarrow> (p # ps, calls'')))"

text \<open>
  \<open>await Promise.all(ps)\<close>: the values in the order of \<open>ps\<close> when every promise is
  fulfilled, a rejection thrown otherwise. When several promises are rejected, the one
  rejected first in time is thrown; the model has no time and takes the first of the
  list, and no statement below depends on which one is taken.
\<close>

fun promise_all :: "('e + 'a) list \<Rightarrow> 'e + 'a list" where
  "promise_all [] = Inr []"
| "promise_all (Inl e # ps) = Inl e"
| "promise_all (Inr v # ps) = (case promise_all ps of Inl e \<Rightarrow> Inl e | Inr vs \<Rightarrow> Inr (v # vs))"

definition globalStats_of :: "(rat \<Rightarrow> string) \<Rightarrow> Location list \<Rightarrow> LocationStats list \<Rightarrow> GlobalStats" where
  "globalStats_of numberToString locations allStats =
     \<lparr>totalLocations = length locations,
      totalReviews = foldl (\<lambda>sum stat. js_add sum (totalReviewCount stat)) (Finite 0) allStats,
      averageRatingAcrossAllLocations =
        (if length allStats > 0
         then JStr (number_toFixed numberToString 2
                      (js_div (foldl (\<lambda>sum stat. js_add sum (averageRating stat)) (Finite 0)
                                 allStats)
                         (length allStats)))
         else JNum 0)\<rparr>"

definition all_reviews_stats_handler ::
  "(rat \<Rightarrow> string) \<Rightarrow> Upstream \<Rightarrow> Req \<Rightarrow> Request list \<Rightarrow> Response \<times> Request list" where
  "all_reviews_stats_handler numberToString upstream req calls =
     (case axios_get upstream (locations_request req) calls of
        (Rejected e, calls') \<Rightarrow> (catch_response e, calls')
      | (Resolved None, calls') \<Rightarrow>
          (catch_response (TypeError ''Cannot read properties of null (reading 'locations')''),
           calls')
      | (Resolved (Some d), calls') \<Rightarrow>
          (case locations_or_empty d of
             LocationArray locations \<Rightarrow>
               (case statsPromises upstream req locations calls' of
                  (ps, calls'') \<Rightarrow>
                    (case promise_all ps of
                       Inl e \<Rightarrow> (catch_response e, calls'')
                     | Inr allStats \<Rightarrow>
                         (\<lparr>statusCode = 200,
                           body = AllReviewsStatsBody True (params_accountId req)
                                    (globalStats_of numberToString locations allStats)
                                    allStats\<rparr>,
                          calls'')))
           | _ \<Rightarrow> (catch_response (TypeError ''locations.map is not a function''), calls')))"

subsection \<open>The protected routes\<close>

text \<open>\<open>app.get(path, validateToken, handler)\<close>: the handler runs only after \<open>next()\<close>.\<close>

datatype Route = ApiAccounts | ApiLocations | ApiReviewsStats | ApiAllReviewsStats

fun handler_of ::
  "(rat \<Rightarrow> string) \<Rightarrow> Upstream \<Rightarrow> Route \<Rightarrow> Req \<Rightarrow> Request list \<Rightarrow> Response \<times> Request list" where
  "handler_of numberToString upstream ApiAccounts = accounts_handler upstream"
| "handler_of numberToString upstream ApiLocations = locations_handler upstream"
| "handler_of numberToString upstream ApiReviewsStats = reviews_stats_handler upstream"
| "handler_of numberToString upstream ApiAllReviewsStats =
     all_reviews_stats_handler numberToString upstream"

text \<open>The upstream call each handler starts with.\<close>

fun first_request :: "Route \<Rightarrow> Req \<Rightarrow> Request" where
  "first_request ApiAccounts req = accounts_request req"
| "first_request ApiLocations req = locations_request req"
| "first_request ApiReviewsStats req =
     reviews_request req
       (''accounts/'' @ params_accountId req @ ''/locations/'' @ params_locationId req)"
| "first_request ApiAllReviewsStats req = locations_request req"

definition app_get ::
  "(rat \<Rightarrow> string) \<Rightarrow> Upstream \<Rightarrow> Route \<Rightarrow> Req \<Rightarrow> Request list \<Rightarrow> Response \<times> Request list" where
  "app_get numberToString upstream route req calls =
     (case validateToken req of
        Inl res \<Rightarrow> (res, calls)
      | Inr req' \<Rightarrow> handler_of numberToString upstream route req' calls)"

section \<open>Well-formed listings\<close>

text \<open>
  A location that the callback can read: it has a string name, and its address lines
  are absent or an array of strings. A listing that the handler can read: its body is not
  \<open>null\<close>, its locations are absent or an array, and every location can be read.
\<close>

definition locations_of :: "ResponseData \<Rightarrow> Location list" where
  "locations_of d = (case data_locations d of LocationArray ls \<Rightarrow> ls | _ \<Rightarrow> [])"

definition well_formed_location :: "Location \<Rightarrow> bool" where
  "well_formed_location location \<longleftrightarrow>
     location_name location \<noteq> None \<and>
     (case location_address location of None \<Rightarrow> True | Some a \<Rightarrow> addressLines a \<noteq> NotLines)"

definition well_formed_listing :: "ResponseData option \<Rightarrow> bool" where
  "well_formed_listing b \<longleftrightarrow>
     (case b of
        None \<Rightarrow> False
      | Some d \<Rightarrow> data_locations d \<noteq> NotAnArray \<and> list_all well_formed_location (locations_of d))"

text \<open>
  The part of a LocationStats entry that both blocks of the callback build alike, and the
  zeroed counters of an entry that carries an error.
\<close>

definition entry_of :: "Location \<Rightarrow> LocationStats \<Rightarrow> bool" where
  "entry_of location s \<longleftrightarrow>
     locationId_of location = Inr (locationId s) \<and>
     locationName s = str_or (location_locationName location) ''N/A'' \<and>
     (\<exists>joined. address_joined location = Inr joined \<and> address s = str_or joined ''N/A'') \<and>
     (error s \<noteq> None \<longrightarrow> totalReviewCount s = Finite 0 \<and> averageRating s = Finite 0)"

section \<open>Concrete accounts\<close>

text \<open>
  The account of the specification's example: location L1 has 10 reviews with an average
  of 4.5, the reviews call of location L2 is answered with status 404. Every other call
  is answered 404 as well.
\<close>

definition no_data :: ResponseData where
  "no_data = \<lparr>data_accounts = JUndefined, data_locations = NoLocations,
              data_totalReviewCount = None, data_averageRating = None\<rparr>"

definition ex_L1 :: Location where
  "ex_L1 = \<lparr>location_name = Some ''accounts/A/locations/L1'',
            location_locationName = Some ''Shop'',
            location_address = Some \<lparr>addressLines = Lines [''1 Main St'', ''Townsville'']\<rparr>\<rparr>"

definition ex_L2 :: Location where
  "ex_L2 = \<lparr>location_name = Some ''accounts/A/locations/L2'',
            location_locationName = None,
            location_address = None\<rparr>"

definition ex_not_found :: AxiosError where
  "ex_not_found =
     \<lparr>response = Some \<lparr>status = 404,
                         data = JObj [(''error'', JObj [(''message'', JStr ''Not found'')])]\<rparr>,
      message = ''Request failed with status code 404''\<rparr>"

definition ex_upstream :: Upstream where
  "ex_upstream n rq =
     (if url rq = ''https://mybusiness.googleapis.com/v4/accounts/A/locations''
      then Resolved (Some (no_data\<lparr>data_locations := LocationArray [ex_L1, ex_L2]\<rparr>))
      else if url rq = ''https://mybusiness.googleapis.com/v4/accounts/A/locations/L1/reviews''
      then Resolved (Some (no_data\<lparr>data_totalReviewCount := Some (Finite 10),
                                    data_averageRating := Some (Finite (9 / 2))\<rparr>))
      else Rejected ex_not_found)"

text \<open>An upstream that cannot be reached, and one that answers every call with \<open>{}\<close>.\<close>

definition ex_down :: Upstream where
  "ex_down n rq = Rejected \<lparr>response = None, message = ''Network Error''\<rparr>"

definition ex_empty :: Upstream where
  "ex_empty n rq = Resolved (Some no_data)"

text \<open>
  The same account listed with a second location that has no name: the listing call
  resolves, the reviews call of L1 resolves, every other call is answered 404.
\<close>

definition ex_nameless :: Location where
  "ex_nameless = \<lparr>location_name = None,
                  location_locationName = Some ''Depot'',
                  location_address = None\<rparr>"

definition ex_nameless_upstream :: Upstream where
  "ex_nameless_upstream n rq =
     (if url rq = ''https://mybusiness.googleapis.com/v4/accounts/A/locations''
      then Resolved (Some (no_data\<lparr>data_locations := LocationArray [ex_L1, ex_nameless]\<rparr>))
      else if url rq = ''https://mybusiness.googleapis.com/v4/accounts/A/locations/L1/reviews''
      then Resolved (Some (no_data\<lparr>data_totalReviewCount := Some (Finite 10),
                                    data_averageRating := Some (Finite (9 / 2))\<rparr>))
      else Rejected ex_not_found)"

text \<open>
  The same account with review counts of \<open>2^53\<close> for L1 and 1 for L2, and no rating.
\<close>

definition ex_big_upstream :: Upstream where
  "ex_big_upstream n rq =
     (if url rq = ''https://mybusiness.googleapis.com/v4/accounts/A/locations''
      then Resolved (Some (no_data\<lparr>data_locations := LocationArray [ex_L1, ex_L2]\<rparr>))
      else if url rq = ''https://mybusiness.googleapis.com/v4/accounts/A/locations/L1/reviews''
      then Resolved (Some (no_data\<lparr>data_totalReviewCount := Some (Finite 9007199254740992)\<rparr>))
      else if url rq = ''https://mybusiness.googleapis.com/v4/accounts/A/locations/L2/reviews''
      then Resolved (Some (no_data\<lparr>data_totalReviewCount := Some (Finite 1)\<rparr>))
      else Rejected ex_not_found)"

text \<open>A request for account A with a bearer token, before and after \<open>validateToken\<close>.\<close>

definition ex_req :: Req where
  "ex_req = \<lparr>headers_authorization = Some ''Bearer tok'', params_accountId = ''A'',
             params_locationId = ''L2'', accessToken = None\<rparr>"

definition ex_token_req :: Req where
  "ex_token_req = ex_req\<lparr>accessToken := Some ''tok''\<rparr>"

text \<open>
  What the promise of the callback is for a location: fulfilled with an entry of the
  location when the location can be read, rejected with a TypeError otherwise.
\<close>

definition promise_of :: "Location \<Rightarrow> AxiosError + LocationStats \<Rightarrow> bool" where
  "promise_of l p \<longleftrightarrow>
     (if well_formed_location l then \<exists>s. p = Inr s \<and> entry_of l s
      else \<exists>m. p = Inl (TypeError m))"

text \<open>A stand-in for the number-to-string conversion, which no example reaches.\<close>

definition ex_numberToString :: "rat \<Rightarrow> string" where
  "ex_numberToString x = []"

section \<open>Strings\<close>

lemma js_split_not_Nil: "js_split c s \<noteq> []"
  by (induction s) (auto split: list.splits)

lemma js_pop_split: "js_pop (js_split c s) = Some (last (js_split c s))"
  by (simp add: js_pop_def js_split_not_Nil)

lemma js_split_unfold:
  "js_split c s =
     takeWhile (\<lambda>x. x \<noteq> c) s #
       (if c \<in> set s then js_split c (tl (dropWhile (\<lambda>x. x \<noteq> c) s)) else [])"
  by (induction s) (auto split: list.splits simp: js_split_not_Nil)

lemma js_split_second:
  assumes "c \<in> set s"
  shows "js_index (js_split c s) 1 =
           Some (takeWhile (\<lambda>x. x \<noteq> c) (tl (dropWhile (\<lambda>x. x \<noteq> c) s)))"
proof -
  let ?t = "tl (dropWhile (\<lambda>x. x \<noteq> c) s)"
  from assms have "js_split c s = takeWhile (\<lambda>x. x \<noteq> c) s # js_split c ?t"
    using js_split_unfold [of c s] by simp
  moreover have "js_split c ?t =
      takeWhile (\<lambda>x. x \<noteq> c) ?t #
        (if c \<in> set ?t then js_split c (tl (dropWhile (\<lambda>x. x \<noteq> c) ?t)) else [])"
    by (rule js_split_unfold)
  ultimately show ?thesis by (simp add: js_index_def)
qed

lemma foldl_add_sum_list:
  "foldl (\<lambda>sum stat. sum + f stat) (a::'a::monoid_add) xs = a + sum_list (map f xs)"
  by (induction xs arbitrary: a) (simp_all add: add.assoc)

section \<open>The value of a toFixed(2) string\<close>

text \<open>
  For a double of value \<open>x\<close> with \<open>0 \<le> x < 10^21\<close>, the string \<open>x.toFixed(2)\<close>
  reads as the multiple of 1/100 nearest to \<open>x\<close>, the larger one on a tie.
\<close>

lemma digit_char:
  assumes "k < 10"
  shows "digit_value (''0123456789'' ! k) = k \<and> ''0123456789'' ! k \<noteq> CHR ''.''"
proof -
  from assms have "k \<in> {0, 1, 2, 3, 4, 5, 6, 7, 8, 9}" by auto
  then show ?thesis by (auto simp add: digit_value_def)
qed

lemma decimal_value_snoc:
  "decimal_value (xs @ [c]) = 10 * decimal_value xs + digit_value c"
  by (simp add: decimal_value_def)

lemma decimal_value_append:
  "decimal_value (xs @ ys) = decimal_value xs * 10 ^ length ys + decimal_value ys"
proof (induction ys rule: rev_induct)
  case Nil
  then show ?case by (simp add: decimal_value_def)
next
  case (snoc y ys)
  have "decimal_value (xs @ ys @ [y]) = 10 * decimal_value (xs @ ys) + digit_value y"
    using decimal_value_snoc [of "xs @ ys" y] by simp
  with snoc show ?case by (simp add: decimal_value_snoc algebra_simps)
qed

lemma decimal_value_zeros: "decimal_value (replicate k (CHR ''0'')) = 0"
proof (induction k)
  case 0
  then show ?case by (simp add: decimal_value_def)
next
  case (Suc k)
  have "replicate (Suc k) (CHR ''0'') = replicate k (CHR ''0'') @ ''0''"
    by (simp add: replicate_append_same)
  with Suc show ?case
    by (simp only: decimal_value_snoc) (simp add: digit_value_def)
qed

lemma digits_value: "decimal_value (digits n) = n"
proof (induction n rule: digits.induct)
  case (1 n)
  show ?case
  proof (cases "n < 10")
    case True
    then show ?thesis
      by (subst digits.simps) (simp add: decimal_value_def digit_char)
  next
    case False
    have "n mod 10 < 10" by simp
    with False 1 show ?thesis
      by (subst digits.simps) (simp add: decimal_value_snoc digit_char)
  qed
qed

lemma digits_no_point: "CHR ''.'' \<notin> set (digits n)"
proof (induction n rule: digits.induct)
  case (1 n)
  show ?case
  proof (cases "n < 10")
    case True
    with digit_char [of n] show ?thesis
      by (subst digits.simps) auto
  next
    case False
    have "n mod 10 < 10" by simp
    with False 1 digit_char [of "n mod 10"] show ?thesis
      by (subst digits.simps) auto
  qed
qed

lemma digits_not_Nil: "digits n \<noteq> []"
  by (subst digits.simps) simp

lemma fixed_point_value_split:
  assumes "CHR ''.'' \<notin> set a"
  shows "fixed_point_value (a @ ''.'' @ b) =
           of_nat (decimal_value a) + of_nat (decimal_value b) / 10 ^ length b"
proof -
  from assms have "takeWhile (\<lambda>c. c \<noteq> CHR ''.'') (a @ ''.'' @ b) = a"
    by (induction a) auto
  moreover from assms have "dropWhile (\<lambda>c. c \<noteq> CHR ''.'') (a @ ''.'' @ b) = ''.'' @ b"
    by (induction a) auto
  ultimately show ?thesis by (simp add: fixed_point_value_def)
qed

lemma toFixed_2_value:
  assumes "0 \<le> x" and "x < 10 ^ 21"
  shows "fixed_point_value (toFixed numberToString 2 x) = of_int \<lfloor>x * 100 + 1 / 2\<rfloor> / 100"
proof -
  define n where "n = nat \<lfloor>x * 100 + 1 / 2\<rfloor>"
  define m where "m = (if length (digits n) \<le> 2
                        then replicate (3 - length (digits n)) (CHR ''0'') @ digits n
                        else digits n)"
  have len: "2 < length m"
    using digits_not_Nil [of n] by (auto simp add: m_def)
  have val: "decimal_value m = n"
    by (simp add: m_def decimal_value_append decimal_value_zeros digits_value)
  have nop: "CHR ''.'' \<notin> set m"
    by (simp add: m_def digits_no_point)
  have tf: "toFixed numberToString 2 x = take (length m - 2) m @ ''.'' @ drop (length m - 2) m"
    using assms by (simp add: toFixed_def Let_def n_def m_def)
  have "CHR ''.'' \<notin> set (take (length m - 2) m)"
    using nop by (auto dest: in_set_takeD)
  from fixed_point_value_split [OF this] tf len
  have "fixed_point_value (toFixed numberToString 2 x) =
      of_nat (decimal_value (take (length m - 2) m)) +
      of_nat (decimal_value (drop (length m - 2) m)) / 100"
    by simp
  moreover have "decimal_value m =
      decimal_value (take (length m - 2) m) * 100 + decimal_value (drop (length m - 2) m)"
    using decimal_value_append [of "take (length m - 2) m" "drop (length m - 2) m"] len
    by simp
  ultimately have "fixed_point_value (toFixed numberToString 2 x) = of_nat n / 100"
    using val by (simp add: field_simps flip: of_nat_add of_nat_mult)
  moreover from assms have "0 \<le> \<lfloor>x * 100 + 1 / 2\<rfloor>" by simp
  then have "(of_nat n :: rat) = of_int \<lfloor>x * 100 + 1 / 2\<rfloor>"
    by (simp add: n_def)
  ultimately show ?thesis by simp
qed

lemma toFixed_2_nearest:
  assumes "0 \<le> x" and "x < 10 ^ 21"
  shows "\<bar>fixed_point_value (toFixed numberToString 2 x) - x\<bar> \<le> 1 / 200"
proof -
  define y :: rat where "y = of_int \<lfloor>x * 100 + 1 / 2\<rfloor>"
  have "y \<le> x * 100 + 1 / 2" and "x * 100 + 1 / 2 < y + 1"
    unfolding y_def by linarith+
  then have "\<bar>y / 100 - x\<bar> \<le> 1 / 200"
    by linarith
  moreover have "fixed_point_value (toFixed numberToString 2 x) = y / 100"
    unfolding y_def by (rule toFixed_2_value [OF assms])
  ultimately show ?thesis by (simp only:)
qed

section \<open>Doubles\<close>

lemma round_half_even_int: "round_half_even (of_int k) = k"
  by (simp add: round_half_even_def)

lemma pow2_nonpos: "k \<le> 0 \<Longrightarrow> pow2 k = 1 / 2 ^ nat (- k)"
  by (cases "k = 0") (simp_all add: pow2_def)

lemma pow2_pos: "0 < pow2 k"
  by (simp add: pow2_def)

lemma round_double_2_53: "round_double (2 ^ 53) = Finite (2 ^ 53)"
  by code_simp

lemma floor_log2_nat:
  assumes "0 < n"
  shows "floor_log2 (of_nat n) = bitlen (int n) - 1"
proof -
  have q: "quotient_of (of_nat n :: rat) = (int n, 1)"
    using quotient_of_int [of "int n"] by simp
  have b1: "bitlen 1 = 1" by (simp add: bitlen_alt_def)
  from assms have "0 < bitlen (int n)" by (simp add: bitlen_alt_def)
  moreover from assms bitlen_bounds [of "int n"]
  have "2 ^ nat (bitlen (int n) - 1) \<le> int n" by simp
  then have "(of_int (2 ^ nat (bitlen (int n) - 1)) :: rat) \<le> of_int (int n)"
    by (simp only: of_int_le_iff)
  ultimately have "pow2 (bitlen (int n) - 1) \<le> of_nat n"
    by (simp add: pow2_def)
  with q b1 show ?thesis by (simp add: floor_log2_def)
qed

lemma round_double_exact:
  assumes "x \<noteq> 0"
    and "max (floor_log2 \<bar>x\<bar>) (- 1022) - 52 = q"
    and "x / pow2 q = of_int m"
    and "\<bar>x\<bar> < 2 ^ 1024"
  shows "round_double x = Finite x"
proof -
  have "pow2 q \<noteq> 0" using pow2_pos [of q] by simp
  then have "x / pow2 q * pow2 q = x" by simp
  with assms(3) have "of_int m * pow2 q = x" by simp
  with assms(3) have "of_int (round_half_even (x / pow2 q)) * pow2 q = x"
    by (simp only: round_half_even_int)
  moreover from assms(4) have "\<not> 2 ^ 1024 \<le> \<bar>x\<bar>" by (simp only: not_le)
  ultimately show ?thesis
    unfolding round_double_def Let_def assms(2) using assms(1) by (simp only: if_False)
qed

lemma round_double_nat:
  assumes "n \<le> 2 ^ 53"
  shows "round_double (of_nat n) = Finite (of_nat n)"
proof (cases "n = 0 \<or> n = 2 ^ 53")
  case True
  then show ?thesis
  proof
    assume "n = 0"
    then show ?thesis by (simp add: round_double_def)
  next
    assume "n = 2 ^ 53"
    then show ?thesis using round_double_2_53 by simp
  qed
next
  case False
  with assms have pos: "0 < n" and lt: "n < 2 ^ 53" by simp_all
  define d where "d = bitlen (int n) - 1"
  have e: "floor_log2 \<bar>of_nat n\<bar> = d"
    using floor_log2_nat [OF pos] by (simp add: d_def)
  from pos have d0: "0 \<le> d" by (simp add: d_def bitlen_alt_def)
  from pos bitlen_bounds [of "int n"] have "2 ^ nat d \<le> int n" by (simp add: d_def)
  then have "int (2 ^ nat d) \<le> int n" by simp
  then have "(2::nat) ^ nat d \<le> n" by (simp only: of_nat_le_iff)
  then have "(2::nat) ^ nat d < 2 ^ 53" using lt by (rule le_less_trans)
  then have "nat d < 53" by (rule power_less_imp_less_exp [rotated]) simp
  with d0 have d52: "d \<le> 52" by simp
  define k where "k = nat (52 - d)"
  have q: "max (floor_log2 \<bar>of_nat n\<bar>) (- 1022) - 52 = - int k"
    unfolding e using d0 d52 by (simp add: k_def)
  have p: "pow2 (- int k) = 1 / 2 ^ k" by (simp add: pow2_nonpos)
  have m: "(of_nat n :: rat) / pow2 (- int k) = of_int (int n * 2 ^ k)"
    by (simp add: p)
  have "(2::nat) ^ 53 \<le> 2 ^ 1024" by (rule power_increasing) simp_all
  with lt have "n < 2 ^ 1024" by (rule less_le_trans)
  then have "(of_nat n :: rat) < of_nat (2 ^ 1024)" by (simp only: of_nat_less_iff)
  then have small: "\<bar>of_nat n :: rat\<bar> < 2 ^ 1024" by simp
  from pos have "(of_nat n :: rat) \<noteq> 0" by simp
  then show ?thesis using q m small by (rule round_double_exact)
qed

text \<open>A sum of natural numbers that stays within \<open>2^53\<close> is added without rounding.\<close>

lemma foldl_js_add_nat:
  assumes "map f xs = map (\<lambda>n. Finite (of_nat n)) ns"
    and "a + sum_list ns \<le> 2 ^ 53"
  shows "foldl (\<lambda>sum stat. js_add sum (f stat)) (Finite (of_nat a)) xs =
           Finite (of_nat (a + sum_list ns))"
  using assms
proof (induction xs arbitrary: a ns)
  case Nil
  then show ?case by simp
next
  case (Cons x xs)
  then obtain n ns' where ns: "ns = n # ns'" "f x = Finite (of_nat n)"
    "map f xs = map (\<lambda>n. Finite (of_nat n)) ns'"
    by (cases ns) auto
  from Cons.prems(2) ns have le: "a + n \<le> 2 ^ 53" and le': "(a + n) + sum_list ns' \<le> 2 ^ 53"
    by simp_all
  have "js_add (Finite (of_nat a)) (f x) = round_double (of_nat (a + n))"
    by (simp add: ns)
  also have "\<dots> = Finite (of_nat (a + n))" using le by (rule round_double_nat)
  finally have step: "js_add (Finite (of_nat a)) (f x) = Finite (of_nat (a + n))" .
  from Cons.IH [OF ns(3) le'] step ns show ?case by (simp add: add.assoc)
qed

section \<open>The fan-out\<close>

lemma stats_promise_well_formed:
  assumes "well_formed_location location"
  shows "\<exists>s calls'. stats_promise upstream req location calls = (Inr s, calls') \<and>
           entry_of location s"
proof -
  from assms obtain n where n: "location_name location = Some n"
    by (auto simp add: well_formed_location_def)
  have "\<exists>joined. address_joined location = Inr joined"
  proof (cases "location_address location")
    case None
    then show ?thesis by (simp add: address_joined_def)
  next
    case (Some a)
    with assms show ?thesis
      by (cases "addressLines a") (simp_all add: well_formed_location_def address_joined_def)
  qed
  then obtain joined where j: "address_joined location = Inr joined" by blast
  show ?thesis
  proof (cases "upstream (length calls) (reviews_request req (template (location_name location)))")
    case (Rejected e)
    with n j show ?thesis
      by (simp add: stats_promise_def stats_try_def stats_catch_def axios_get_def entry_of_def
          locationId_of_def)
  next
    case (Resolved b)
    with n j show ?thesis
      by (cases b)
         (simp_all add: stats_promise_def stats_try_def stats_catch_def axios_get_def
            entry_of_def locationId_of_def)
  qed
qed

lemma stats_catch_malformed:
  assumes "\<not> well_formed_location location"
  shows "\<exists>m. stats_catch location e = Inl (TypeError m)"
proof (cases "location_name location")
  case None
  then have "stats_catch location e =
      Inl (TypeError ''Cannot read properties of undefined (reading 'split')'')"
    by (simp add: stats_catch_def locationId_of_def)
  then show ?thesis by blast
next
  case (Some n)
  with assms obtain a where "location_address location = Some a" "addressLines a = NotLines"
    by (auto simp add: well_formed_location_def split: option.splits)
  with Some have "stats_catch location e =
      Inl (TypeError ''location.address?.addressLines?.join is not a function'')"
    by (simp add: stats_catch_def locationId_of_def address_joined_def)
  then show ?thesis by blast
qed

lemma stats_try_malformed:
  assumes "\<not> well_formed_location location"
  shows "\<exists>e. fst (stats_try upstream req location calls) = Inl e"
proof (cases "location_name location")
  case None
  then show ?thesis
    by (simp add: stats_try_def locationId_of_def axios_get_def split: Outcome.splits)
next
  case (Some n)
  with assms obtain a where "location_address location = Some a" "addressLines a = NotLines"
    by (auto simp add: well_formed_location_def split: option.splits)
  with Some show ?thesis
    by (simp add: stats_try_def locationId_of_def address_joined_def axios_get_def
        split: Outcome.splits)
qed

lemma stats_promise_malformed:
  assumes "\<not> well_formed_location location"
  shows "\<exists>m. fst (stats_promise upstream req location calls) = Inl (TypeError m)"
proof -
  from stats_try_malformed [OF assms]
  obtain e where "fst (stats_try upstream req location calls) = Inl e" by blast
  then obtain c where "stats_try upstream req location calls = (Inl e, c)"
    by (cases "stats_try upstream req location calls") simp
  with stats_catch_malformed [OF assms, of e] show ?thesis
    by (auto simp add: stats_promise_def)
qed

lemma stats_promise_calls:
  "snd (stats_promise upstream req location calls) =
     calls @ [reviews_request req (template (location_name location))]"
  by (simp add: stats_promise_def stats_try_def axios_get_def
      split: Outcome.splits sum.splits option.splits prod.splits)

lemma statsPromises_entries:
  "statsPromises upstream req locations calls = (ps, calls') \<Longrightarrow>
     list_all2 promise_of locations ps"
proof (induction locations arbitrary: calls ps calls')
  case Nil
  then show ?case by simp
next
  case (Cons l ls)
  obtain p c1 where p: "stats_promise upstream req l calls = (p, c1)"
    by (cases "stats_promise upstream req l calls")
  have "promise_of l p"
    using stats_promise_well_formed [of l upstream req calls]
      stats_promise_malformed [of l upstream req calls] p
    by (auto simp add: promise_of_def)
  moreover obtain qs c2 where q: "statsPromises upstream req ls c1 = (qs, c2)"
    by (cases "statsPromises upstream req ls c1")
  moreover from Cons.prems p q have "ps = p # qs" by simp
  ultimately show ?case using Cons.IH [OF q] by simp
qed

lemma statsPromises_calls:
  "snd (statsPromises upstream req locations calls) =
     calls @ map (\<lambda>l. reviews_request req (template (location_name l))) locations"
proof (induction locations arbitrary: calls)
  case Nil
  then show ?case by simp
next
  case (Cons l ls)
  let ?c = "calls @ [reviews_request req (template (location_name l))]"
  obtain p where p: "stats_promise upstream req l calls = (p, ?c)"
    using stats_promise_calls [of upstream req l calls]
    by (cases "stats_promise upstream req l calls") simp
  obtain ps c2 where ps: "statsPromises upstream req ls ?c = (ps, c2)"
    by (cases "statsPromises upstream req ls ?c")
  from Cons.IH [of ?c] ps
  have "c2 = calls @ reviews_request req (template (location_name l)) #
      map (\<lambda>l. reviews_request req (template (location_name l))) ls" by simp
  with p ps show ?case by simp
qed

lemma promise_all_cases:
  assumes "list_all2 promise_of ls ps"
  shows "if list_all well_formed_location ls
         then \<exists>vs. promise_all ps = Inr vs \<and> list_all2 entry_of ls vs
         else \<exists>m. promise_all ps = Inl (TypeError m)"
  using assms
proof (induction ls ps rule: list_all2_induct)
  case Nil
  then show ?case by simp
next
  case (Cons l p ls ps)
  then show ?case by (auto simp add: promise_of_def split: if_splits)
qed

section \<open>The handlers\<close>

lemma catch_TypeError:
  "catch_response (TypeError m) = \<lparr>statusCode = 500, body = FailureBody False (JStr m)\<rparr>"
  by (simp add: catch_response_def TypeError_def)

lemma locations_or_empty_array:
  "data_locations d \<noteq> NotAnArray \<Longrightarrow> locations_or_empty d = LocationArray (locations_of d)"
  by (cases "data_locations d") (simp_all add: locations_or_empty_def locations_of_def)

lemma aggregate_rejected:
  "fst (axios_get upstream (locations_request req) calls) = Rejected e \<Longrightarrow>
     fst (all_reviews_stats_handler numberToString upstream req calls) = catch_response e"
  by (simp add: all_reviews_stats_handler_def axios_get_def)

lemma aggregate_resolved:
  assumes "fst (axios_get upstream (locations_request req) calls) = Resolved b"
  shows "if well_formed_listing b
         then \<exists>d allStats.
                b = Some d \<and>
                fst (all_reviews_stats_handler numberToString upstream req calls) =
                  \<lparr>statusCode = 200,
                   body = AllReviewsStatsBody True (params_accountId req)
                            (globalStats_of numberToString (locations_of d) allStats)
                            allStats\<rparr> \<and>
                list_all2 entry_of (locations_of d) allStats
         else \<exists>m. fst (all_reviews_stats_handler numberToString upstream req calls) =
                  \<lparr>statusCode = 500, body = FailureBody False (JStr m)\<rparr>"
proof (cases b)
  case None
  with assms show ?thesis
    by (simp add: well_formed_listing_def all_reviews_stats_handler_def axios_get_def
        catch_TypeError)
next
  case (Some d)
  show ?thesis
  proof (cases "data_locations d = NotAnArray")
    case True
    with assms Some show ?thesis
      by (simp add: well_formed_listing_def all_reviews_stats_handler_def axios_get_def
          catch_TypeError locations_or_empty_def)
  next
    case False
    let ?c = "calls @ [locations_request req]"
    obtain ps c2 where ps: "statsPromises upstream req (locations_of d) ?c = (ps, c2)"
      by (cases "statsPromises upstream req (locations_of d) ?c")
    note pa = promise_all_cases [OF statsPromises_entries [OF ps]]
    show ?thesis
    proof (cases "list_all well_formed_location (locations_of d)")
      case True
      with pa obtain vs where "promise_all ps = Inr vs" "list_all2 entry_of (locations_of d) vs"
        by auto
      with assms Some False True ps show ?thesis
        by (simp add: well_formed_listing_def all_reviews_stats_handler_def axios_get_def
            locations_or_empty_array)
    next
      case no: False
      with pa obtain m where "promise_all ps = Inl (TypeError m)" by auto
      with assms Some False no ps show ?thesis
        by (simp add: well_formed_listing_def all_reviews_stats_handler_def axios_get_def
            locations_or_empty_array catch_TypeError)
    qed
  qed
qed

text \<open>Only the aggregating route answers with the aggregate body.\<close>

lemma all_stats_body_origin:
  assumes "fst (app_get numberToString upstream route req calls) =
             \<lparr>statusCode = c, body = AllReviewsStatsBody ok acc g allStats\<rparr>"
  shows "\<exists>locations. g = globalStats_of numberToString locations allStats \<and>
           list_all2 entry_of locations allStats"
proof (cases "validateToken req")
  case (Inl res)
  with assms show ?thesis
    by (auto simp add: app_get_def validateToken_def split: option.splits if_splits)
next
  case (Inr req')
  show ?thesis
  proof (cases route)
    case ApiAllReviewsStats
    show ?thesis
    proof (cases "fst (axios_get upstream (locations_request req') calls)")
      case (Rejected e)
      from aggregate_rejected [OF this] assms Inr ApiAllReviewsStats show ?thesis
        by (simp add: app_get_def catch_response_def)
    next
      case (Resolved b)
      from aggregate_resolved [OF this, of numberToString] assms Inr ApiAllReviewsStats
      show ?thesis by (auto simp add: app_get_def split: if_splits)
    qed
  next
    case ApiAccounts
    with assms Inr show ?thesis
      by (auto simp add: app_get_def accounts_handler_def catch_response_def
          split: prod.splits Outcome.splits option.splits)
  next
    case ApiLocations
    with assms Inr show ?thesis
      by (auto simp add: app_get_def locations_handler_def catch_response_def
          split: prod.splits Outcome.splits option.splits)
  next
    case ApiReviewsStats
    with assms Inr show ?thesis
      by (auto simp add: app_get_def reviews_stats_handler_def catch_response_def Let_def
          split: prod.splits Outcome.splits option.splits)
  qed
qed

text \<open>Every handler begins with its upstream call.\<close>

lemma aggregate_calls:
  "\<exists>rest. snd (all_reviews_stats_handler numberToString upstream req calls) =
            calls @ locations_request req # rest"
proof (cases "upstream (length calls) (locations_request req)")
  case (Rejected e)
  then show ?thesis by (simp add: all_reviews_stats_handler_def axios_get_def)
next
  case (Resolved b)
  show ?thesis
  proof (cases b)
    case None
    with Resolved show ?thesis by (simp add: all_reviews_stats_handler_def axios_get_def)
  next
    case (Some d)
    show ?thesis
    proof (cases "locations_or_empty d")
      case (LocationArray ls)
      have "snd (all_reviews_stats_handler numberToString upstream req calls) =
            snd (statsPromises upstream req ls (calls @ [locations_request req]))"
        using Resolved Some LocationArray
        by (simp add: all_reviews_stats_handler_def axios_get_def
            split: prod.splits sum.splits)
      then show ?thesis by (simp add: statsPromises_calls)
    qed (use Resolved Some in \<open>simp_all add: all_reviews_stats_handler_def axios_get_def\<close>)
  qed
qed

lemma handler_calls:
  "\<exists>rest. snd (handler_of numberToString upstream route req calls) =
            calls @ first_request route req # rest"
proof (cases route)
  case ApiAllReviewsStats
  with aggregate_calls [of numberToString upstream req calls] show ?thesis by simp
qed (simp_all add: accounts_handler_def locations_handler_def reviews_stats_handler_def
       axios_get_def Let_def split: Outcome.splits option.splits)

lemma handler_rejected:
  "fst (axios_get upstream (first_request route req) calls) = Rejected e \<Longrightarrow>
     fst (handler_of numberToString upstream route req calls) = catch_response e"
  by (cases route)
     (simp_all add: accounts_handler_def locations_handler_def reviews_stats_handler_def
        all_reviews_stats_handler_def axios_get_def Let_def)

text \<open>
  The average field as the handler computes it: a string as soon as there is an entry,
  the number 0 otherwise.
\<close>

lemma average_field_shape:
  assumes "fst (app_get numberToString upstream route req calls) =
             \<lparr>statusCode = c, body = AllReviewsStatsBody ok acc g allStats\<rparr>"
  shows "averageRatingAcrossAllLocations g =
           (if allStats = [] then JNum 0
            else JStr (number_toFixed numberToString 2
                         (js_div (foldl (\<lambda>sum stat. js_add sum (averageRating stat)) (Finite 0)
                                    allStats)
                            (length allStats))))"
proof -
  from all_stats_body_origin [OF assms]
  obtain locations where "g = globalStats_of numberToString locations allStats"
    by blast
  then show ?thesis by (simp add: globalStats_of_def)
qed

section \<open>The concrete accounts, evaluated\<close>

lemmas ex_defs = ex_req_def ex_token_req_def ex_L1_def ex_L2_def no_data_def ex_upstream_def
  ex_down_def ex_empty_def ex_not_found_def ex_nameless_def ex_nameless_upstream_def
  ex_big_upstream_def

lemmas request_defs = GMB_API_BASE_URL_def accounts_request_def locations_request_def
  reviews_request_def auth_headers_def template_def axios_get_def

lemmas fetch_defs = stats_promise_def stats_try_def stats_catch_def locationId_of_def
  address_joined_def js_pop_def str_or_def js_or_def


lemma ex_locations_resolved:
  "fst (axios_get ex_upstream (locations_request ex_token_req) []) =
     Resolved (Some (no_data\<lparr>data_locations := LocationArray [ex_L1, ex_L2]\<rparr>))"
  by (simp add: ex_defs request_defs)

lemma floor_451_2: "\<lfloor>(451 / 2 :: rat)\<rfloor> = 225"
  by (simp add: floor_eq_iff)

lemma digits_225: "digits 225 = ''225''"
  by code_simp

lemma digits_0: "digits 0 = ''0''"
  by code_simp

lemma toFixed_example: "toFixed numberToString 2 (9 / 4) = ''2.25''"
  by (simp add: toFixed_def Let_def floor_451_2 digits_225)

lemma toFixed_zero: "toFixed numberToString 2 0 = ''0.00''"
  by (simp add: toFixed_def Let_def digits_0)

lemma round_double_examples:
  "round_double 10 = Finite 10"
  "round_double (9 / 2) = Finite (9 / 2)"
  "round_double (9 / 4) = Finite (9 / 4)"
  "round_double 9007199254740992 = Finite 9007199254740992"
  "round_double 9007199254740993 = Finite 9007199254740992"
  by code_simp+

lemma ex_all_stats:
  "fst (app_get numberToString ex_upstream ApiAllReviewsStats ex_req []) =
     \<lparr>statusCode = 200,
      body = AllReviewsStatsBody True ''A''
        \<lparr>totalLocations = 2, totalReviews = Finite 10,
         averageRatingAcrossAllLocations = JStr ''2.25''\<rparr>
        [\<lparr>locationId = Some ''L1'', locationName = ''Shop'',
          address = ''1 Main St, Townsville'', totalReviewCount = Finite 10,
          averageRating = Finite (9 / 2), error = None\<rparr>,
         \<lparr>locationId = Some ''L2'', locationName = ''N/A'',
          address = ''N/A'', totalReviewCount = Finite 0, averageRating = Finite 0,
          error = Some (JStr ''Not found'')\<rparr>]\<rparr>"
  by (simp add: app_get_def validateToken_def js_index_def all_reviews_stats_handler_def
      globalStats_of_def locations_or_empty_def toFixed_example round_double_examples
      fetch_defs ex_defs request_defs)

lemma ex_big_stats:
  "fst (app_get numberToString ex_big_upstream ApiAllReviewsStats ex_req []) =
     \<lparr>statusCode = 200,
      body = AllReviewsStatsBody True ''A''
        \<lparr>totalLocations = 2, totalReviews = Finite 9007199254740992,
         averageRatingAcrossAllLocations = JStr ''0.00''\<rparr>
        [\<lparr>locationId = Some ''L1'', locationName = ''Shop'',
          address = ''1 Main St, Townsville'', totalReviewCount = Finite 9007199254740992,
          averageRating = Finite 0, error = None\<rparr>,
         \<lparr>locationId = Some ''L2'', locationName = ''N/A'',
          address = ''N/A'', totalReviewCount = Finite 1, averageRating = Finite 0,
          error = None\<rparr>]\<rparr>"
  by (simp add: app_get_def validateToken_def js_index_def all_reviews_stats_handler_def
      globalStats_of_def locations_or_empty_def toFixed_zero round_double_examples
      round_double_def [of 0]
      fetch_defs ex_defs request_defs)


lemma ex_nameless_stats:
  "fst (app_get numberToString ex_nameless_upstream ApiAllReviewsStats ex_req []) =
     \<lparr>statusCode = 500,
      body = FailureBody False
               (JStr ''Cannot read properties of undefined (reading 'split')'')\<rparr>"
  by (simp add: app_get_def validateToken_def js_index_def all_reviews_stats_handler_def
      globalStats_of_def locations_or_empty_def catch_TypeError round_double_examples
      fetch_defs ex_defs request_defs)

section \<open>The per-location fetcher\<close>




section \<open>The aggregate response\<close>

text \<open>
  C2, as amended. When the location list of the account is fetched with \<open>N\<close>
  locations, each with a string name and with address lines that are absent or an
  array of strings, the aggregating handler answers 200 with exactly \<open>N\<close> entries in
  \<open>locationStats\<close>, the \<open>i\<close>-th entry carrying the identifier (last path segment of
  the resource name) of the \<open>i\<close>-th location, whether or not the reviews call of that
  location failed.
\<close>

theorem one_entry_per_well_formed_location_in_order:
  assumes "fst (axios_get upstream (locations_request req) calls) = Resolved (Some d)"
    and "well_formed_listing (Some d)"
  shows "\<exists>g allStats.
           fst (all_reviews_stats_handler numberToString upstream req calls) =
             \<lparr>statusCode = 200,
              body = AllReviewsStatsBody True (params_accountId req) g allStats\<rparr> \<and>
           length allStats = length (locations_of d) \<and>
           map locationId allStats =
             map (\<lambda>l. map_option (\<lambda>n. last (js_split (CHR ''/'') n)) (location_name l))
               (locations_of d)"
proof -
  from aggregate_resolved [OF assms(1), of numberToString] assms(2)
  obtain allStats where
    r: "fst (all_reviews_stats_handler numberToString upstream req calls) =
          \<lparr>statusCode = 200,
           body = AllReviewsStatsBody True (params_accountId req)
                    (globalStats_of numberToString (locations_of d) allStats) allStats\<rparr>" and
    e: "list_all2 entry_of (locations_of d) allStats"
    by auto
  from e have "length allStats = length (locations_of d)"
    by (simp add: list_all2_lengthD)
  moreover have "entry_of l s \<Longrightarrow>
      locationId s = map_option (\<lambda>n. last (js_split (CHR ''/'') n)) (location_name l)" for l s
    by (cases "location_name l")
       (auto simp add: entry_of_def locationId_of_def js_pop_split)
  with e have "map locationId allStats =
      map (\<lambda>l. map_option (\<lambda>n. last (js_split (CHR ''/'') n)) (location_name l))
        (locations_of d)"
    by (induction rule: list_all2_induct) simp_all
  ultimately show ?thesis using r by blast
qed

theorem one_entry_per_well_formed_location_in_order_witness:
  "well_formed_listing (Some (no_data\<lparr>data_locations := LocationArray [ex_L1, ex_L2]\<rparr>)) \<and>
   (\<exists>g allStats.
     fst (all_reviews_stats_handler (\<lambda>x. []) ex_upstream ex_token_req []) =
       \<lparr>statusCode = 200, body = AllReviewsStatsBody True ''A'' g allStats\<rparr> \<and>
     length allStats = 2 \<and> map locationId allStats = [Some ''L1'', Some ''L2''])"
proof -
  have wf: "well_formed_listing (Some (no_data\<lparr>data_locations := LocationArray [ex_L1, ex_L2]\<rparr>))"
    by (simp add: well_formed_listing_def well_formed_location_def locations_of_def ex_defs)
  from one_entry_per_well_formed_location_in_order [OF ex_locations_resolved wf, of "\<lambda>x. []"]
  show ?thesis using wf
    by (simp add: locations_of_def ex_defs numeral_2_eq_2)
qed

text \<open>
  C2, as first stated for every listing that is fetched, fails: a listing of two
  locations, the second without a name, is answered 500 with no \<open>locationStats\<close>.
\<close>

theorem nameless_location_fails_whole_request:
  "fst (axios_get ex_nameless_upstream (locations_request ex_token_req) []) =
     Resolved (Some (no_data\<lparr>data_locations := LocationArray [ex_L1, ex_nameless]\<rparr>)) \<and>
   fst (all_reviews_stats_handler ex_numberToString ex_nameless_upstream ex_token_req []) =
     \<lparr>statusCode = 500,
      body = FailureBody False
               (JStr ''Cannot read properties of undefined (reading 'split')'')\<rparr>"
  by (simp add: all_reviews_stats_handler_def locations_or_empty_def catch_TypeError
      round_double_examples fetch_defs ex_defs request_defs)

text \<open>
  C3, as amended. In every all-reviews-stats response whose \<open>totalReviewCount\<close> fields
  are natural numbers with a sum of at most \<open>2^53\<close>, \<open>globalStats.totalReviews\<close> is
  the sum of the \<open>totalReviewCount\<close> fields of the entries of \<open>locationStats\<close> in
  that response, and an entry that carries an error contributes 0.
\<close>

theorem totalReviews_is_sum_within_2_53:
  assumes "fst (app_get numberToString upstream route req calls) =
             \<lparr>statusCode = c, body = AllReviewsStatsBody ok acc g allStats\<rparr>"
    and "map totalReviewCount allStats = map (\<lambda>n. Finite (of_nat n)) ns"
    and "sum_list ns \<le> 2 ^ 53"
  shows "totalReviews g = Finite (of_nat (sum_list ns)) \<and>
         (\<forall>s \<in> set allStats. error s \<noteq> None \<longrightarrow> totalReviewCount s = Finite 0)"
proof -
  from all_stats_body_origin [OF assms(1)]
  obtain locations where
    g: "g = globalStats_of numberToString locations allStats" and
    e: "list_all2 entry_of locations allStats"
    by blast
  from assms(3) have "0 + sum_list ns \<le> 2 ^ 53" by simp
  from foldl_js_add_nat [OF assms(2) this] g
  have "totalReviews g = Finite (of_nat (sum_list ns))"
    by (simp add: globalStats_of_def)
  moreover from e
  have "\<forall>s \<in> set allStats. error s \<noteq> None \<longrightarrow> totalReviewCount s = Finite 0"
    by (induction rule: list_all2_induct) (simp_all add: entry_of_def)
  ultimately show ?thesis by blast
qed

theorem totalReviews_is_sum_within_2_53_witness:
  "map totalReviewCount
     [\<lparr>locationId = Some ''L1'', locationName = ''Shop'',
       address = ''1 Main St, Townsville'', totalReviewCount = Finite 10,
       averageRating = Finite (9 / 2), error = None\<rparr>,
      \<lparr>locationId = Some ''L2'', locationName = ''N/A'',
       address = ''N/A'', totalReviewCount = Finite 0, averageRating = Finite 0,
       error = Some (JStr ''Not found'')\<rparr>] = map (\<lambda>n. Finite (of_nat n)) [10, 0] \<and>
   sum_list [10, 0 :: nat] \<le> 2 ^ 53 \<and>
   totalReviews \<lparr>totalLocations = 2, totalReviews = Finite 10,
                  averageRatingAcrossAllLocations = JStr ''2.25''\<rparr> =
     Finite (of_nat (sum_list [10, 0]))"
proof -
  have m: "map totalReviewCount
     [\<lparr>locationId = Some ''L1'', locationName = ''Shop'',
       address = ''1 Main St, Townsville'', totalReviewCount = Finite 10,
       averageRating = Finite (9 / 2), error = None\<rparr>,
      \<lparr>locationId = Some ''L2'', locationName = ''N/A'',
       address = ''N/A'', totalReviewCount = Finite 0, averageRating = Finite 0,
       error = Some (JStr ''Not found'')\<rparr>] = map (\<lambda>n. Finite (of_nat n)) [10, 0]"
    by simp
  have s: "sum_list [10, 0 :: nat] \<le> 2 ^ 53" by simp
  from totalReviews_is_sum_within_2_53 [OF ex_all_stats [of "\<lambda>x. []"] m s] m s
  show ?thesis by blast
qed

text \<open>
  C3, as first stated without a bound, fails: the counts \<open>2^53\<close> and 1 are added as
  doubles, and \<open>totalReviews\<close> is \<open>2^53\<close>, not \<open>2^53 + 1\<close>.
\<close>

theorem totalReviews_rounds_above_2_53:
  "fst (app_get ex_numberToString ex_big_upstream ApiAllReviewsStats ex_req []) =
     \<lparr>statusCode = 200,
      body = AllReviewsStatsBody True ''A''
        \<lparr>totalLocations = 2, totalReviews = Finite 9007199254740992,
         averageRatingAcrossAllLocations = JStr ''0.00''\<rparr>
        [\<lparr>locationId = Some ''L1'', locationName = ''Shop'',
          address = ''1 Main St, Townsville'', totalReviewCount = Finite 9007199254740992,
          averageRating = Finite 0, error = None\<rparr>,
         \<lparr>locationId = Some ''L2'', locationName = ''N/A'',
          address = ''N/A'', totalReviewCount = Finite 1, averageRating = Finite 0,
          error = None\<rparr>]\<rparr> \<and>
   Finite 9007199254740992 \<noteq> Finite (9007199254740992 + 1)"
  using ex_big_stats [of ex_numberToString] by simp

text \<open>
  C4. On the specification's example (L1 with 10 reviews and an average of 4.5, the
  reviews call of L2 failing) the entries have the counts 10 and 0 and the ratings 4.5
  and 0, and \<open>globalStats.averageRatingAcrossAllLocations\<close> is the string \<open>2.25\<close> that
  \<open>toFixed(2)\<close> returns, not the number 2.25.
\<close>

theorem average_rating_example:
  "\<exists>c ok acc g allStats.
     fst (app_get numberToString ex_upstream ApiAllReviewsStats ex_req []) =
       \<lparr>statusCode = c, body = AllReviewsStatsBody ok acc g allStats\<rparr> \<and>
     map totalReviewCount allStats = [Finite 10, Finite 0] \<and>
     map averageRating allStats = [Finite (9 / 2), Finite 0] \<and>
     averageRatingAcrossAllLocations g = JStr ''2.25'' \<and>
     averageRatingAcrossAllLocations g \<noteq> JNum (9 / 4)"
  using ex_all_stats [of numberToString] by auto

theorem average_rating_example_witness:
  "\<exists>c ok acc g allStats.
     fst (app_get (\<lambda>x. []) ex_upstream ApiAllReviewsStats ex_req []) =
       \<lparr>statusCode = c, body = AllReviewsStatsBody ok acc g allStats\<rparr> \<and>
     averageRatingAcrossAllLocations g = JStr ''2.25''"
  using average_rating_example [of "\<lambda>x. []"] by blast

text \<open>
  C5. In every all-reviews-stats response, \<open>globalStats.totalLocations\<close> is the length
  of \<open>locationStats\<close> in that response.
\<close>

theorem totalLocations_is_length:
  assumes "fst (app_get numberToString upstream route req calls) =
             \<lparr>statusCode = c, body = AllReviewsStatsBody ok acc g allStats\<rparr>"
  shows "totalLocations g = length allStats"
proof -
  from all_stats_body_origin [OF assms]
  obtain locations where
    g: "g = globalStats_of numberToString locations allStats" and
    e: "list_all2 entry_of locations allStats"
    by blast
  from e have "length locations = length allStats" by (rule list_all2_lengthD)
  with g show ?thesis by (simp add: globalStats_of_def)
qed

theorem totalLocations_is_length_witness:
  "\<exists>c ok acc g allStats.
     fst (app_get (\<lambda>x. []) ex_upstream ApiAllReviewsStats ex_req []) =
       \<lparr>statusCode = c, body = AllReviewsStatsBody ok acc g allStats\<rparr> \<and>
     totalLocations g = length allStats \<and> totalLocations g = 2"
  using totalLocations_is_length [OF ex_all_stats [of "\<lambda>x. []"]] ex_all_stats [of "\<lambda>x. []"]
  by auto




section \<open>Authentication\<close>

text \<open>
  C7. On each of the four protected routes, a request whose Authorization header is
  absent or does not start with \<open>Bearer\<close> and a space is answered 401 with the body
  \<open>{error, message}\<close>, and the log of upstream calls is left as it was. Otherwise the
  route's handler runs on the request with the token stored, and its first upstream
  call is appended to the log.
\<close>

theorem unauthenticated_request_gets_401:
  "((headers_authorization req = None \<or>
      (\<exists>h. headers_authorization req = Some h \<and> \<not> prefix ''Bearer '' h)) \<longrightarrow>
     (\<exists>err msg. app_get numberToString upstream route req calls =
                  (\<lparr>statusCode = 401, body = AuthErrorBody err msg\<rparr>, calls))) \<and>
   ((\<exists>h. headers_authorization req = Some h \<and> prefix ''Bearer '' h) \<longrightarrow>
     (\<exists>tok rest.
        app_get numberToString upstream route req calls =
          handler_of numberToString upstream route (req\<lparr>accessToken := tok\<rparr>) calls \<and>
        snd (app_get numberToString upstream route req calls) =
          calls @ first_request route (req\<lparr>accessToken := tok\<rparr>) # rest))"
proof (cases "validateToken req")
  case (Inl res)
  then show ?thesis
    by (auto simp add: app_get_def validateToken_def split: option.splits if_splits)
next
  case (Inr req')
  then obtain h where h: "headers_authorization req = Some h" "prefix ''Bearer '' h"
    "req' = req\<lparr>accessToken := js_index (js_split (CHR '' '') h) 1\<rparr>"
    by (auto simp add: validateToken_def split: option.splits if_splits)
  from handler_calls [of numberToString upstream route req' calls]
  obtain rest where "snd (handler_of numberToString upstream route req' calls) =
      calls @ first_request route req' # rest" by blast
  with Inr h show ?thesis by (auto simp add: app_get_def)
qed

theorem unauthenticated_request_gets_401_witness:
  "(\<exists>err msg. app_get (\<lambda>x. []) ex_upstream ApiAccounts (ex_req\<lparr>headers_authorization := None\<rparr>) [] =
      (\<lparr>statusCode = 401, body = AuthErrorBody err msg\<rparr>, [])) \<and>
   (\<exists>err msg. app_get (\<lambda>x. []) ex_upstream ApiAccounts
        (ex_req\<lparr>headers_authorization := Some ''Basic dXNlcg==''\<rparr>) [] =
      (\<lparr>statusCode = 401, body = AuthErrorBody err msg\<rparr>, [])) \<and>
   (\<exists>tok rest. snd (app_get (\<lambda>x. []) ex_upstream ApiAccounts ex_req []) =
      first_request ApiAccounts (ex_req\<lparr>accessToken := tok\<rparr>) # rest)"
  using unauthenticated_request_gets_401
          [of "ex_req\<lparr>headers_authorization := None\<rparr>" "\<lambda>x. []" ex_upstream ApiAccounts "[]"]
        unauthenticated_request_gets_401
          [of "ex_req\<lparr>headers_authorization := Some ''Basic dXNlcg==''\<rparr>" "\<lambda>x. []" ex_upstream
              ApiAccounts "[]"]
        unauthenticated_request_gets_401 [of ex_req "\<lambda>x. []" ex_upstream ApiAccounts "[]"]
  by (auto simp add: ex_req_def)

text \<open>
  C10. A header that starts with \<open>Bearer\<close> and a space passes validation whatever
  follows, and the stored token is the part of the header between its first space and
  its second space (or its end). For the header that is exactly \<open>Bearer\<close> and a
  space, the token is the empty string, the handler runs, and its upstream call carries
  the Authorization header \<open>Bearer\<close> followed by a space and nothing else.
\<close>

theorem empty_bearer_token_is_accepted:
  "(\<forall>h. headers_authorization req = Some h \<and> prefix ''Bearer '' h \<longrightarrow>
      validateToken req =
        Inr (req\<lparr>accessToken :=
               Some (takeWhile (\<lambda>c. c \<noteq> CHR '' '') (tl (dropWhile (\<lambda>c. c \<noteq> CHR '' '') h)))\<rparr>)) \<and>
   (headers_authorization req = Some ''Bearer '' \<longrightarrow>
      validateToken req = Inr (req\<lparr>accessToken := Some []\<rparr>) \<and>
      (\<exists>rest. snd (app_get numberToString upstream route req calls) =
                calls @ first_request route (req\<lparr>accessToken := Some []\<rparr>) # rest) \<and>
      headers (first_request route (req\<lparr>accessToken := Some []\<rparr>)) =
        [(''Authorization'', ''Bearer ''), (''Content-Type'', ''application/json'')])"
proof -
  have token: "validateToken req =
        Inr (req\<lparr>accessToken :=
               Some (takeWhile (\<lambda>c. c \<noteq> CHR '' '') (tl (dropWhile (\<lambda>c. c \<noteq> CHR '' '') h)))\<rparr>)"
    if "headers_authorization req = Some h" "prefix ''Bearer '' h" for h
  proof -
    from that obtain rest where "h = ''Bearer '' @ rest" by (auto simp add: prefix_def)
    then have "CHR '' '' \<in> set h" and "h \<noteq> []" by simp_all
    from js_split_second [OF this(1)] this(2) that show ?thesis
      by (simp add: validateToken_def)
  qed
  have hdrs: "headers (first_request route (req\<lparr>accessToken := Some []\<rparr>)) =
        [(''Authorization'', ''Bearer ''), (''Content-Type'', ''application/json'')]"
    by (cases route)
       (simp_all add: accounts_request_def locations_request_def reviews_request_def
          auth_headers_def template_def)
  have "validateToken req = Inr (req\<lparr>accessToken := Some []\<rparr>) \<and>
      (\<exists>rest. snd (app_get numberToString upstream route req calls) =
                calls @ first_request route (req\<lparr>accessToken := Some []\<rparr>) # rest)"
    if b: "headers_authorization req = Some ''Bearer ''"
  proof -
    from token [OF b] have v: "validateToken req = Inr (req\<lparr>accessToken := Some []\<rparr>)"
      by simp
    from handler_calls [of numberToString upstream route "req\<lparr>accessToken := Some []\<rparr>" calls] v
    show ?thesis by (simp add: app_get_def)
  qed
  with token hdrs show ?thesis by blast
qed

theorem empty_bearer_token_is_accepted_witness:
  "validateToken (ex_req\<lparr>headers_authorization := Some ''Bearer ''\<rparr>) =
     Inr (ex_req\<lparr>headers_authorization := Some ''Bearer '', accessToken := Some []\<rparr>) \<and>
   validateToken (ex_req\<lparr>headers_authorization := Some ''Bearer a b''\<rparr>) =
     Inr (ex_req\<lparr>headers_authorization := Some ''Bearer a b'', accessToken := Some ''a''\<rparr>) \<and>
   (\<exists>rest. snd (app_get (\<lambda>x. []) ex_upstream ApiAccounts
                  (ex_req\<lparr>headers_authorization := Some ''Bearer ''\<rparr>) []) =
      \<lparr>url = ''https://mybusiness.googleapis.com/v4/accounts'',
       headers = [(''Authorization'', ''Bearer ''), (''Content-Type'', ''application/json'')],
       params = []\<rparr> # rest)"
  using empty_bearer_token_is_accepted
          [of "ex_req\<lparr>headers_authorization := Some ''Bearer ''\<rparr>" "\<lambda>x. []" ex_upstream
              ApiAccounts "[]"]
        empty_bearer_token_is_accepted
          [of "ex_req\<lparr>headers_authorization := Some ''Bearer a b''\<rparr>" "\<lambda>x. []" ex_upstream
              ApiAccounts "[]"]
  by (simp add: ex_req_def accounts_request_def auth_headers_def template_def
      GMB_API_BASE_URL_def)

section \<open>Upstream failures\<close>

text \<open>
  C8. On each of the four handlers, when the upstream call the handler starts with is
  rejected, the answer has the status of the upstream response when there is a response
  with a status other than 0, the status 500 otherwise, and the body
  \<open>{success: false, error}\<close> where \<open>error\<close> is the body of the upstream response
  when there is one and it is truthy, the message of the error otherwise.
\<close>

theorem upstream_failure_is_relayed:
  assumes "fst (axios_get upstream (first_request route req) calls) = Rejected e"
  shows "fst (handler_of numberToString upstream route req calls) =
           \<lparr>statusCode = (case response e of
                            None \<Rightarrow> 500
                          | Some r \<Rightarrow> if status r \<noteq> 0 then status r else 500),
            body = FailureBody False
                     (case response e of
                        None \<Rightarrow> JStr (message e)
                      | Some r \<Rightarrow> if truthy (data r) then data r else JStr (message e))\<rparr>"
  using handler_rejected [OF assms, of numberToString]
  by (simp add: catch_response_def js_or_def split: option.splits)

theorem upstream_failure_is_relayed_witness:
  "fst (handler_of (\<lambda>x. []) ex_upstream ApiReviewsStats ex_token_req []) =
     \<lparr>statusCode = 404,
      body = FailureBody False (JObj [(''error'', JObj [(''message'', JStr ''Not found'')])])\<rparr> \<and>
   fst (handler_of (\<lambda>x. []) ex_down ApiAccounts ex_token_req []) =
     \<lparr>statusCode = 500, body = FailureBody False (JStr ''Network Error'')\<rparr>"
proof -
  have 1: "fst (axios_get ex_upstream (first_request ApiReviewsStats ex_token_req) []) =
      Rejected ex_not_found"
    by (simp add: ex_defs request_defs)
  have 2: "fst (axios_get ex_down (first_request ApiAccounts ex_token_req) []) =
      Rejected \<lparr>response = None, message = ''Network Error''\<rparr>"
    by (simp add: axios_get_def ex_down_def)
  from upstream_failure_is_relayed [OF 1, of "\<lambda>x. []"]
       upstream_failure_is_relayed [OF 2, of "\<lambda>x. []"]
  show ?thesis by (simp add: ex_not_found_def)
qed

section \<open>Defaults of the entries\<close>

text \<open>
  C9. In every entry of an aggregate response, produced by the try block or by the
  catch block, \<open>locationName\<close> is \<open>N/A\<close> when the location has no display name,
  \<open>address\<close> is \<open>N/A\<close> when the location has no address, no address lines or an
  empty list of them, and neither field is ever empty. When the listing can be read,
  the handler does answer with such entries, one per location.
\<close>

theorem missing_name_and_address_are_NA:
  assumes "fst (axios_get upstream (locations_request req) calls) = Resolved (Some d)"
  shows "(well_formed_listing (Some d) \<longrightarrow>
           (\<exists>g allStats.
              fst (all_reviews_stats_handler numberToString upstream req calls) =
                \<lparr>statusCode = 200,
                 body = AllReviewsStatsBody True (params_accountId req) g allStats\<rparr> \<and>
              list_all2
                (\<lambda>l s.
                   (location_locationName l = None \<longrightarrow> locationName s = ''N/A'') \<and>
                   (location_address l = None \<or>
                      (\<exists>a. location_address l = Some a \<and>
                           (addressLines a = NoLines \<or> addressLines a = Lines [])) \<longrightarrow>
                    address s = ''N/A'') \<and>
                   locationName s \<noteq> [] \<and> address s \<noteq> [])
                (locations_of d) allStats)) \<and>
         (\<forall>c ok acc g allStats.
            fst (all_reviews_stats_handler numberToString upstream req calls) =
              \<lparr>statusCode = c, body = AllReviewsStatsBody ok acc g allStats\<rparr> \<longrightarrow>
            list_all2
              (\<lambda>l s.
                 (location_locationName l = None \<longrightarrow> locationName s = ''N/A'') \<and>
                 (location_address l = None \<or>
                    (\<exists>a. location_address l = Some a \<and>
                         (addressLines a = NoLines \<or> addressLines a = Lines [])) \<longrightarrow>
                  address s = ''N/A'') \<and>
                 locationName s \<noteq> [] \<and> address s \<noteq> [])
              (locations_of d) allStats)"
proof -
  let ?P = "\<lambda>l s.
             (location_locationName l = None \<longrightarrow> locationName s = ''N/A'') \<and>
             (location_address l = None \<or>
                (\<exists>a. location_address l = Some a \<and>
                     (addressLines a = NoLines \<or> addressLines a = Lines [])) \<longrightarrow>
              address s = ''N/A'') \<and>
             locationName s \<noteq> [] \<and> address s \<noteq> []"
  have P: "?P l s" if e: "entry_of l s" for l s
  proof -
    from e have n: "locationName s = str_or (location_locationName l) ''N/A''"
      by (simp add: entry_of_def)
    from e obtain joined where
      j: "address_joined l = Inr joined" and a: "address s = str_or joined ''N/A''"
      by (auto simp add: entry_of_def)
    from n have 1: "location_locationName l = None \<longrightarrow> locationName s = ''N/A''"
      by (simp add: str_or_def)
    from n have 2: "locationName s \<noteq> []"
      by (cases "location_locationName l") (simp_all add: str_or_def)
    from a have 3: "address s \<noteq> []"
      by (cases joined) (simp_all add: str_or_def)
    have 4: "address s = ''N/A''"
      if "location_address l = None \<or>
            (\<exists>a. location_address l = Some a \<and>
                 (addressLines a = NoLines \<or> addressLines a = Lines []))"
    proof -
      from that j have "joined = None \<or> joined = Some []"
        by (auto simp add: address_joined_def)
      with a show ?thesis by (auto simp add: str_or_def)
    qed
    from 1 2 3 4 show ?thesis by blast
  qed
  note r = aggregate_resolved [OF assms, of numberToString]
  show ?thesis
  proof (cases "well_formed_listing (Some d)")
    case True
    with r obtain allStats where
      h: "fst (all_reviews_stats_handler numberToString upstream req calls) =
            \<lparr>statusCode = 200,
             body = AllReviewsStatsBody True (params_accountId req)
                      (globalStats_of numberToString (locations_of d) allStats) allStats\<rparr>" and
      e: "list_all2 entry_of (locations_of d) allStats"
      by auto
    from e P have "list_all2 ?P (locations_of d) allStats"
      by (rule list_all2_mono)
    with h show ?thesis by auto
  next
    case False
    with r obtain m where
      "fst (all_reviews_stats_handler numberToString upstream req calls) =
         \<lparr>statusCode = 500, body = FailureBody False (JStr m)\<rparr>"
      by auto
    with False show ?thesis by simp
  qed
qed

theorem missing_name_and_address_are_NA_witness:
  "\<exists>g s1 s2.
     fst (all_reviews_stats_handler (\<lambda>x. []) ex_upstream ex_token_req []) =
       \<lparr>statusCode = 200, body = AllReviewsStatsBody True ''A'' g [s1, s2]\<rparr> \<and>
     locationName s1 \<noteq> [] \<and> address s1 \<noteq> [] \<and>
     locationName s2 = ''N/A'' \<and> address s2 = ''N/A''"
proof -
  have wf: "well_formed_listing (Some (no_data\<lparr>data_locations := LocationArray [ex_L1, ex_L2]\<rparr>))"
    by (simp add: well_formed_listing_def well_formed_location_def locations_of_def ex_defs)
  from missing_name_and_address_are_NA [OF ex_locations_resolved, of "\<lambda>x. []"] wf
  show ?thesis
    by (auto simp add: locations_of_def list_all2_Cons1 ex_defs)
qed

end
